theory Spec2Isabelle
  imports Main "HOL-Library.Sublist" "HOL-Library.AList"
begin

section \<open>Python values\<close>

text \<open>
  The values that travel through \<^verbatim>\<open>findwork_agent.py\<close> are the ones a JSON body decodes
  to: \<^verbatim>\<open>None\<close>, booleans, integers, strings, lists and dictionaries. A dictionary is an
  association list in insertion order with distinct keys. Floating point numbers are left
  out of the model. A \<^verbatim>\<open>str\<close> is a \<^typ>\<open>string\<close>, the UTF-8 bytes of the text.
\<close>

datatype json =
    JNull
  | JBool bool
  | JInt int
  | JStr string
  | JList "json list"
  | JDict "(string \<times> json) list"

section \<open>Text: character classes, lower case, substring test\<close>

text \<open>
  The character classes and the case mapping are the ones of the ASCII range:
  \<^verbatim>\<open>\d\<close> is \<^verbatim>\<open>[0-9]\<close>, \<^verbatim>\<open>\w\<close> is \<^verbatim>\<open>[A-Za-z0-9_]\<close>, and \<^verbatim>\<open>lower()\<close> maps
  \<^verbatim>\<open>A-Z\<close> to \<^verbatim>\<open>a-z\<close>. Bytes above 127 are in no class and have no case, so the
  functions of this section and the next two follow Python on ASCII text. For other
  characters Python consults the Unicode tables; the parser on arbitrary text, with those
  tables as a parameter, is \<open>parse_user_input_unicode\<close> further down, and on ASCII text
  the two agree (lemma \<open>parsers_agree_on_ascii\<close>).
\<close>

definition is_digit :: "char \<Rightarrow> bool" where
  "is_digit c = (let n = (of_char c :: nat) in 48 \<le> n \<and> n \<le> 57)"

definition is_upper :: "char \<Rightarrow> bool" where
  "is_upper c = (let n = (of_char c :: nat) in 65 \<le> n \<and> n \<le> 90)"

definition is_lower :: "char \<Rightarrow> bool" where
  "is_lower c = (let n = (of_char c :: nat) in 97 \<le> n \<and> n \<le> 122)"

definition is_word :: "char \<Rightarrow> bool" where
  "is_word c = (is_digit c \<or> is_upper c \<or> is_lower c \<or> c = CHR ''_'')"

definition lower_char :: "char \<Rightarrow> char" where
  "lower_char c = (if is_upper c then char_of ((of_char c :: nat) + 32) else c)"

definition lower :: "string \<Rightarrow> string" where
  "lower s = map lower_char s"

text \<open>\<^verbatim>\<open>sub in s\<close> on two strings.\<close>

fun str_contains :: "string \<Rightarrow> string \<Rightarrow> bool" where
  "str_contains sub [] = (sub = [])"
| "str_contains sub (c # cs) = (prefix sub (c # cs) \<or> str_contains sub cs)"

section \<open>The three regular expressions of the parser\<close>

text \<open>
  \<^verbatim>\<open>re.search(lit + r'(\w+)', s, re.IGNORECASE)\<close> for a lower-case literal \<open>lit\<close>:
  \<open>match_lit_word\<close> is the attempt at the start of \<open>s\<close> and gives group 1, the longest
  run of word characters after the literal (\<^verbatim>\<open>+\<close> is greedy and nothing follows it);
  \<open>re_search_lit_word\<close> tries every start position from left to right.
\<close>

definition match_lit_word :: "string \<Rightarrow> string \<Rightarrow> string option" where
  "match_lit_word lit s =
     (if lower (take (length lit) s) = lit
      then (let w = takeWhile is_word (drop (length lit) s)
            in if w = [] then None else Some w)
      else None)"

fun re_search_lit_word :: "string \<Rightarrow> string \<Rightarrow> string option" where
  "re_search_lit_word lit [] = match_lit_word lit []"
| "re_search_lit_word lit (c # cs) =
     (case match_lit_word lit (c # cs) of
        Some w \<Rightarrow> Some w
      | None \<Rightarrow> re_search_lit_word lit cs)"

text \<open>
  \<^verbatim>\<open>re.search(r'\b(\d+) open jobs\b', s)\<close>, of which the parser uses only whether it
  matches. \<^verbatim>\<open>\b\<close> holds between two neighbours of which exactly one is a word character,
  the ends of the text counting as non-word. The digits are taken greedily; giving one
  back leaves a digit where the blank is wanted, so only the longest run can match.
\<close>

definition head_opt :: "string \<Rightarrow> char option" where
  "head_opt s = (case s of [] \<Rightarrow> None | c # _ \<Rightarrow> Some c)"

definition is_word_opt :: "char option \<Rightarrow> bool" where
  "is_word_opt p = (case p of None \<Rightarrow> False | Some c \<Rightarrow> is_word c)"

definition word_boundary :: "char option \<Rightarrow> char option \<Rightarrow> bool" where
  "word_boundary before after = (is_word_opt before \<noteq> is_word_opt after)"

definition match_open_jobs :: "char option \<Rightarrow> string \<Rightarrow> bool" where
  "match_open_jobs before s =
     (let ds = takeWhile is_digit s;
          rest = drop (length ds) s
      in word_boundary before (head_opt s) \<and> ds \<noteq> [] \<and>
         prefix '' open jobs'' rest \<and>
         word_boundary (Some CHR ''s'') (head_opt (drop 10 rest)))"

fun search_open_jobs_from :: "char option \<Rightarrow> string \<Rightarrow> bool" where
  "search_open_jobs_from before [] = match_open_jobs before []"
| "search_open_jobs_from before (c # cs) =
     (match_open_jobs before (c # cs) \<or> search_open_jobs_from (Some c) cs)"

definition re_search_open_jobs :: "string \<Rightarrow> bool" where
  "re_search_open_jobs s = search_open_jobs_from None s"

section \<open>Query parser\<close>

definition default_query :: "(string \<times> json) list" where
  "default_query =
     [(''search'', JStr ''''), (''location'', JNull), (''sort_by'', JStr ''date''), (''page'', JInt 1)]"

text \<open>
  \<^verbatim>\<open>parse_user_input\<close>. The dictionary \<^verbatim>\<open>parsed_query\<close> is updated in place by the four
  \<^verbatim>\<open>if\<close> statements in turn; the log line is left out. This embedding is the function on
  ASCII text and has no error result; \<open>parse_user_input_unicode\<close> has the exceptions and
  any text, and is proved never to raise on a string.
\<close>

definition parse_user_input :: "string \<Rightarrow> (string \<times> json) list" where
  "parse_user_input user_input =
     (let parsed_query = default_query;
          match_location = re_search_lit_word ''in '' user_input;
          match_role = re_search_lit_word ''for a '' user_input;
          parsed_query = (case match_location of
                            Some g \<Rightarrow> AList.update ''location'' (JStr g) parsed_query
                          | None \<Rightarrow> parsed_query);
          parsed_query = (case match_role of
                            Some g \<Rightarrow> AList.update ''search'' (JStr g) parsed_query
                          | None \<Rightarrow> parsed_query);
          parsed_query = (if str_contains ''remote'' (lower user_input)
                          then AList.update ''search'' (JStr ''remote'') parsed_query
                          else parsed_query);
          parsed_query = (if re_search_open_jobs user_input
                          then AList.update ''page'' (JInt 1) parsed_query
                          else parsed_query)
      in parsed_query)"

section \<open>Errors and the outside world\<close>

text \<open>
  The exceptions that can leave the functions below. \<open>Uncaught\<close> is an exception raised
  during an HTTP attempt that is not a \<^verbatim>\<open>requests.exceptions.RequestException\<close>; the
  \<^verbatim>\<open>except\<close> clause of \<^verbatim>\<open>search_jobs\<close> does not catch it. \<open>IndexError\<close> is what a
  match object raises when asked for a group it does not have.
\<close>

datatype py_error = TypeError | KeyError | IndexError | Uncaught

text \<open>
  One pass through the \<^verbatim>\<open>try\<close> block of \<^verbatim>\<open>search_jobs\<close> (\<^verbatim>\<open>requests.get\<close> with
  its 5 second timeout, \<^verbatim>\<open>raise_for_status\<close>, \<^verbatim>\<open>json\<close>) ends in one of three ways:
  the decoded body, a \<^verbatim>\<open>RequestException\<close> (connection error, timeout, or the
  \<^verbatim>\<open>HTTPError\<close> that \<^verbatim>\<open>raise_for_status\<close> raises for an error status), or another
  exception. The endpoint is a function of the number of requests made so far and of the
  query parameters. The world records every request sent and every \<^verbatim>\<open>time.sleep\<close>, in
  seconds, oldest first. Log lines are not recorded.
\<close>

datatype attempt = Body json | RequestException | OtherException

type_synonym server = "nat \<Rightarrow> json \<Rightarrow> attempt"

record world =
  requests :: "json list"
  sleeps :: "nat list"

definition then_do :: "py_error + 'a \<Rightarrow> ('a \<Rightarrow> py_error + 'b) \<Rightarrow> py_error + 'b" where
  "then_do r f = (case r of Inl e \<Rightarrow> Inl e | Inr v \<Rightarrow> f v)"

section \<open>Listing client\<close>

definition error_sentinel :: json where
  "error_sentinel =
     JDict [(''error'', JStr ''Failed to fetch job listings after multiple attempts.'')]"

text \<open>
  The \<^verbatim>\<open>for attempt in range(retries)\<close> loop of \<^verbatim>\<open>search_jobs\<close>, by the number of
  attempts left. The \<^verbatim>\<open>except\<close> block sleeps 2 seconds and falls through to the next
  round; when no round is left the loop ends and the sentinel is returned.
\<close>

fun attempts :: "server \<Rightarrow> json \<Rightarrow> nat \<Rightarrow> world \<Rightarrow> (py_error + json) \<times> world" where
  "attempts srv params 0 w = (Inr error_sentinel, w)"
| "attempts srv params (Suc n) w =
     (case srv (length (requests w)) params of
        Body job_results \<Rightarrow> (Inr job_results, w\<lparr>requests := requests w @ [params]\<rparr>)
      | RequestException \<Rightarrow>
          attempts srv params n
            (w\<lparr>requests := requests w @ [params], sleeps := sleeps w @ [2]\<rparr>)
      | OtherException \<Rightarrow> (Inl Uncaught, w\<lparr>requests := requests w @ [params]\<rparr>))"

definition search_jobs ::
  "server \<Rightarrow> json \<Rightarrow> json \<Rightarrow> json \<Rightarrow> json \<Rightarrow> world \<Rightarrow> (py_error + json) \<times> world" where
  "search_jobs srv search location sort_by page w =
     (let params = JDict [(''search'', search), (''location'', location),
                          (''sort_by'', sort_by), (''page'', page)];
          retries = 3
      in attempts srv params retries w)"

text \<open>
  \<^verbatim>\<open>find_jobs.search_jobs(**parsed_input)\<close>: the argument must be a dictionary whose keys
  are parameter names of \<^verbatim>\<open>search_jobs\<close>; a parameter without a key takes its default.
\<close>

definition kwarg :: "(string \<times> json) list \<Rightarrow> string \<Rightarrow> json \<Rightarrow> json" where
  "kwarg kw name dflt = (case map_of kw name of Some v \<Rightarrow> v | None \<Rightarrow> dflt)"

definition call_search_jobs :: "server \<Rightarrow> json \<Rightarrow> world \<Rightarrow> (py_error + json) \<times> world" where
  "call_search_jobs srv parsed_input w =
     (case parsed_input of
        JDict kw \<Rightarrow>
          if list_all (\<lambda>k. k \<in> set [''search'', ''location'', ''sort_by'', ''page'']) (map fst kw)
          then search_jobs srv (kwarg kw ''search'' (JStr '''')) (kwarg kw ''location'' JNull)
                 (kwarg kw ''sort_by'' (JStr ''date'')) (kwarg kw ''page'' (JInt 1)) w
          else (Inl TypeError, w)
      | _ \<Rightarrow> (Inl TypeError, w))"

section \<open>Result formatter\<close>

text \<open>Truth value of a decoded JSON value.\<close>

fun truthy :: "json \<Rightarrow> bool" where
  "truthy JNull = False"
| "truthy (JBool b) = b"
| "truthy (JInt n) = (n \<noteq> 0)"
| "truthy (JStr s) = (s \<noteq> [])"
| "truthy (JList xs) = (xs \<noteq> [])"
| "truthy (JDict kvs) = (kvs \<noteq> [])"

text \<open>
  \<^verbatim>\<open>key in obj\<close> and \<^verbatim>\<open>obj[key]\<close> for a string key: a dictionary is searched by key,
  a list by element and a string by substring; a list or a string cannot be indexed by a
  string, and the other values support neither operation.
\<close>

definition py_in :: "string \<Rightarrow> json \<Rightarrow> py_error + bool" where
  "py_in key obj =
     (case obj of
        JDict kvs \<Rightarrow> Inr (map_of kvs key \<noteq> None)
      | JList xs \<Rightarrow> Inr (JStr key \<in> set xs)
      | JStr s \<Rightarrow> Inr (str_contains key s)
      | _ \<Rightarrow> Inl TypeError)"

definition getitem :: "json \<Rightarrow> string \<Rightarrow> py_error + json" where
  "getitem obj key =
     (case obj of
        JDict kvs \<Rightarrow> (case map_of kvs key of None \<Rightarrow> Inl KeyError | Some v \<Rightarrow> Inr v)
      | _ \<Rightarrow> Inl TypeError)"

text \<open>
  The items that \<^verbatim>\<open>for job in obj[:5]\<close> runs over: the first five elements of a list,
  the first five one-character strings of a string; no other value can be sliced (a
  dictionary rejects the slice as a key, with an exception whose class depends on the
  Python version; the model reports it as \<open>TypeError\<close>).
\<close>

definition first5 :: "json \<Rightarrow> py_error + json list" where
  "first5 obj =
     (case obj of
        JList xs \<Rightarrow> Inr (take 5 xs)
      | JStr s \<Rightarrow> Inr (map (\<lambda>c. JStr [c]) (take 5 s))
      | _ \<Rightarrow> Inl TypeError)"

text \<open>
  A replacement field of an f-string shows \<^verbatim>\<open>str(v)\<close>: a string as it is, any other
  value by its \<^verbatim>\<open>repr\<close>, which is a parameter of the model.
\<close>

definition py_format :: "(json \<Rightarrow> string) \<Rightarrow> json \<Rightarrow> string" where
  "py_format repr v = (case v of JStr s \<Rightarrow> s | _ \<Rightarrow> repr v)"

definition no_jobs_message :: string where
  "no_jobs_message =
     [CHR 0xE2, CHR 0x9D, CHR 0x8C] @
     '' No job listings found. Try different keywords or location.''"

text \<open>The block appended for one job; the six subscripts are evaluated in this order.\<close>

definition format_job :: "(json \<Rightarrow> string) \<Rightarrow> json \<Rightarrow> py_error + string" where
  "format_job repr job =
     then_do (getitem job ''company_name'') (\<lambda>company_name.
     then_do (getitem job ''role'') (\<lambda>role.
     then_do (getitem job ''location'') (\<lambda>location.
     then_do (getitem job ''remote'') (\<lambda>remote.
     then_do (getitem job ''date_posted'') (\<lambda>date_posted.
     then_do (getitem job ''url'') (\<lambda>url.
       Inr ([CHR 0xF0, CHR 0x9F, CHR 0x8F, CHR 0xA2] @ '' **'' @ py_format repr company_name @
              ''** - '' @ py_format repr role @ [CHR 0x0A] @
            [CHR 0xF0, CHR 0x9F, CHR 0x93, CHR 0x8D] @ '' **Location:** '' @
              py_format repr location @ [CHR 0x0A] @
            [CHR 0xF0, CHR 0x9F, CHR 0x8C, CHR 0x8D] @ '' **Remote:** '' @
              (if truthy remote then ''Yes'' else ''No'') @ [CHR 0x0A] @
            [CHR 0xF0, CHR 0x9F, CHR 0x93, CHR 0x85] @ '' **Posted:** '' @
              py_format repr date_posted @ [CHR 0x0A] @
            [CHR 0xF0, CHR 0x9F, CHR 0x94, CHR 0x97] @ '' [View Job]('' @
              py_format repr url @ '')'' @ [CHR 0x0A])))))))"

text \<open>The \<^verbatim>\<open>for job in ...\<close> loop, with \<^verbatim>\<open>formatted_jobs\<close> as accumulator.\<close>

fun format_loop ::
  "(json \<Rightarrow> string) \<Rightarrow> json list \<Rightarrow> string list \<Rightarrow> py_error + string list" where
  "format_loop repr [] formatted_jobs = Inr formatted_jobs"
| "format_loop repr (job # jobs) formatted_jobs =
     (case format_job repr job of
        Inl e \<Rightarrow> Inl e
      | Inr block \<Rightarrow> format_loop repr jobs (formatted_jobs @ [block]))"

text \<open>\<^verbatim>\<open>sep.join(parts)\<close>.\<close>

fun join :: "string \<Rightarrow> string list \<Rightarrow> string" where
  "join sep [] = []"
| "join sep [p] = p"
| "join sep (p # q # ps) = p @ sep @ join sep (q # ps)"

text \<open>
  The result formatter is the part of \<^verbatim>\<open>search_jobs_tool\<close> after the API call (from
  \<^verbatim>\<open>if "results" in job_results\<close> to the end), as a function of \<^verbatim>\<open>job_results\<close>.
\<close>

definition result_formatter :: "(json \<Rightarrow> string) \<Rightarrow> json \<Rightarrow> py_error + string" where
  "result_formatter repr job_results =
     then_do (py_in ''results'' job_results) (\<lambda>present.
       if present
       then then_do (getitem job_results ''results'') (\<lambda>results.
              if truthy results
              then then_do (first5 results) (\<lambda>jobs.
                   then_do (format_loop repr jobs []) (\<lambda>formatted_jobs.
                     Inr (join [CHR 0x0A, CHR 0x0A] formatted_jobs)))
              else Inr no_jobs_message)
       else Inr no_jobs_message)"

section \<open>Tool adapter\<close>

text \<open>
  \<^verbatim>\<open>parse_user_input(input_text) if isinstance(input_text, str) else input_text\<close>.
\<close>

definition parsed_input_of :: "json \<Rightarrow> json" where
  "parsed_input_of input_text =
     (case input_text of JStr s \<Rightarrow> JDict (parse_user_input s) | _ \<Rightarrow> input_text)"

text \<open>
  \<^verbatim>\<open>search_jobs_tool\<close>, statement by statement. The \<^verbatim>\<open>FindJobs()\<close> object only holds the
  endpoint and the key, which are part of \<open>srv\<close>.
\<close>

definition search_jobs_tool ::
  "(json \<Rightarrow> string) \<Rightarrow> server \<Rightarrow> json \<Rightarrow> world \<Rightarrow> (py_error + string) \<times> world" where
  "search_jobs_tool repr srv input_text w =
     (let parsed_input = parsed_input_of input_text
      in case call_search_jobs srv parsed_input w of
           (Inl e, w') \<Rightarrow> (Inl e, w')
         | (Inr job_results, w') \<Rightarrow>
             (case py_in ''results'' job_results of
                Inl e \<Rightarrow> (Inl e, w')
              | Inr present \<Rightarrow>
                  if present
                  then (case getitem job_results ''results'' of
                          Inl e \<Rightarrow> (Inl e, w')
                        | Inr results \<Rightarrow>
                            if truthy results
                            then (case first5 results of
                                    Inl e \<Rightarrow> (Inl e, w')
                                  | Inr jobs \<Rightarrow>
                                      (case format_loop repr jobs [] of
                                         Inl e \<Rightarrow> (Inl e, w')
                                       | Inr formatted_jobs \<Rightarrow>
                                           (Inr (join [CHR 0x0A, CHR 0x0A] formatted_jobs), w')))
                            else (Inr no_jobs_message, w'))
                  else (Inr no_jobs_message, w')))"

section \<open>Notions of the specification\<close>

text \<open>
  ``The text contains a substring matching \<open>P\<close>'': some contiguous part of the text
  satisfies \<open>P\<close>. Two patterns of the specification follow, for ASCII text: a literal
  followed by a word (``in <word>'', ``for a <word>'') and the word ``remote'', both read
  without regard to case.
\<close>

definition contains_match :: "(string \<Rightarrow> bool) \<Rightarrow> string \<Rightarrow> bool" where
  "contains_match P s = list_ex P (sublists s)"

definition is_lit_word :: "string \<Rightarrow> string \<Rightarrow> bool" where
  "is_lit_word lit t =
     (lower (take (length lit) t) = lit \<and> drop (length lit) t \<noteq> [] \<and>
      list_all is_word (drop (length lit) t))"


text \<open>The invariant of the data model on a parameter set: a page of at least 1 and a known
  sort order.\<close>

definition valid_parameters :: "(string \<times> json) list \<Rightarrow> bool" where
  "valid_parameters q =
     ((case map_of q ''page'' of Some (JInt n) \<Rightarrow> 1 \<le> n | _ \<Rightarrow> False) \<and>
      (case map_of q ''sort_by'' of
         Some (JStr v) \<Rightarrow> v = ''date'' \<or> v = ''relevance''
       | _ \<Rightarrow> False))"

text \<open>
  A well-formed listing response is a dictionary whose \<^verbatim>\<open>results\<close>, when present, is a
  list of dictionaries that each have the six keys of a job listing.
\<close>

definition well_formed_job :: "json \<Rightarrow> bool" where
  "well_formed_job job =
     (case job of
        JDict kvs \<Rightarrow>
          list_all (\<lambda>k. map_of kvs k \<noteq> None)
            [''company_name'', ''role'', ''location'', ''remote'', ''date_posted'', ''url'']
      | _ \<Rightarrow> False)"

definition well_formed_response :: "json \<Rightarrow> bool" where
  "well_formed_response r =
     (case r of
        JDict kvs \<Rightarrow>
          (case map_of kvs ''results'' of
             None \<Rightarrow> True
           | Some (JList js) \<Rightarrow> list_all well_formed_job js
           | Some _ \<Rightarrow> False)
      | _ \<Rightarrow> False)"

text \<open>The formatter applied to what the client returned; an exception of the client
  passes through.\<close>

definition format_response ::
  "(json \<Rightarrow> string) \<Rightarrow> (py_error + json) \<times> world \<Rightarrow> (py_error + string) \<times> world" where
  "format_response repr cr =
     (case cr of
        (Inl e, w') \<Rightarrow> (Inl e, w')
      | (Inr job_results, w') \<Rightarrow> (result_formatter repr job_results, w'))"

text \<open>Sample surroundings: an endpoint whose every attempt ends in a
  \<^verbatim>\<open>RequestException\<close>, one that answers with a fixed body, a world in which nothing has
  happened yet, and a job listing.\<close>

definition always_failing :: server where
  "always_failing = (\<lambda>n params. RequestException)"

definition always_answering :: "json \<Rightarrow> server" where
  "always_answering body = (\<lambda>n params. Body body)"

definition quiet_world :: world where
  "quiet_world = \<lparr>requests = [], sleeps = []\<rparr>"

definition sample_job :: "string \<Rightarrow> json" where
  "sample_job name =
     JDict [(''company_name'', JStr name), (''role'', JStr ''Developer''),
            (''location'', JNull), (''remote'', JBool True),
            (''date_posted'', JStr ''2025-01-01''), (''url'', JStr ''https://findwork.dev/1'')]"

definition sample_response :: json where
  "sample_response =
     JDict [(''count'', JInt 7),
            (''results'', JList (map sample_job [''A'', ''B'', ''C'', ''D'', ''E'', ''F'', ''G'']))]"

section \<open>Query parser on arbitrary text\<close>

text \<open>
  Outside the ASCII range Python's \<^verbatim>\<open>re\<close> module and \<^verbatim>\<open>str.lower\<close> read the Unicode
  character database, which is no part of the repository. Here it is a parameter: for a
  character that is not ASCII, \<open>alnum\<close> says whether \<^verbatim>\<open>\w\<close> accepts it, \<open>decimal\<close>
  whether \<^verbatim>\<open>\d\<close> does, \<open>ignorecase\<close> whether a letter of a pattern matches it under
  \<^verbatim>\<open>re.IGNORECASE\<close>, and \<open>lowered\<close> what \<^verbatim>\<open>lower()\<close> puts in its place (which may
  depend on its position in the text). On ASCII characters the classes and the case
  mapping are the ones defined above.

  A text is read character by character; a character is the group of bytes that encodes
  it in UTF-8 (one byte when the first is below \<open>0xC0\<close>, then two, three or four).
\<close>

record unicode =
  alnum :: "string \<Rightarrow> bool"
  decimal :: "string \<Rightarrow> bool"
  ignorecase :: "char \<Rightarrow> string \<Rightarrow> bool"
  lowered :: "string list \<Rightarrow> nat \<Rightarrow> string"

definition char_width :: "char \<Rightarrow> nat" where
  "char_width b =
     (let n = (of_char b :: nat)
      in if n < 192 then 1 else if n < 224 then 2 else if n < 240 then 3 else 4)"

fun utf8_chars :: "string \<Rightarrow> string list" where
  "utf8_chars [] = []"
| "utf8_chars (b # bs) =
     (b # take (char_width b - 1) bs) # utf8_chars (drop (char_width b - 1) bs)"

definition is_ascii :: "string \<Rightarrow> bool" where
  "is_ascii s = list_all (\<lambda>b. (of_char b :: nat) < 128) s"

definition ascii_byte :: "string \<Rightarrow> char option" where
  "ascii_byte c =
     (case c of
        [b] \<Rightarrow> if (of_char b :: nat) < 128 then Some b else None
      | _ \<Rightarrow> None)"

definition word_char :: "unicode \<Rightarrow> string \<Rightarrow> bool" where
  "word_char U c = (case ascii_byte c of Some b \<Rightarrow> is_word b | None \<Rightarrow> alnum U c)"

definition digit_char :: "unicode \<Rightarrow> string \<Rightarrow> bool" where
  "digit_char U c = (case ascii_byte c of Some b \<Rightarrow> is_digit b | None \<Rightarrow> decimal U c)"

text \<open>A lower-case letter or blank \<open>p\<close> of a pattern against a character of the text, under
  \<^verbatim>\<open>re.IGNORECASE\<close>.\<close>

definition letter_matches :: "unicode \<Rightarrow> char \<Rightarrow> string \<Rightarrow> bool" where
  "letter_matches U p c =
     (case ascii_byte c of Some b \<Rightarrow> lower_char b = p | None \<Rightarrow> ignorecase U p c)"

fun literal_matches :: "unicode \<Rightarrow> string \<Rightarrow> string list \<Rightarrow> bool" where
  "literal_matches U [] cs = True"
| "literal_matches U (p # ps) [] = False"
| "literal_matches U (p # ps) (c # cs) = (letter_matches U p c \<and> literal_matches U ps cs)"

text \<open>\<^verbatim>\<open>lower()\<close> of a text, as bytes.\<close>

definition uni_lower :: "unicode \<Rightarrow> string list \<Rightarrow> string" where
  "uni_lower U cs =
     concat (map (\<lambda>i. case ascii_byte (cs ! i) of
                          Some b \<Rightarrow> [lower_char b]
                        | None \<Rightarrow> lowered U cs i)
                 [0..<length cs])"

text \<open>
  \<^verbatim>\<open>re.search(lit + r'(\w+)', s, re.IGNORECASE)\<close> as before, on the characters of the
  text. A match object is the list of its groups: group 0, the whole match, and group 1,
  the word.
\<close>

definition uni_match_lit_word :: "unicode \<Rightarrow> string \<Rightarrow> string list \<Rightarrow> string list option" where
  "uni_match_lit_word U lit cs =
     (if literal_matches U lit cs
      then (let w = takeWhile (word_char U) (drop (length lit) cs)
            in if w = [] then None
               else Some [concat (take (length lit) cs @ w), concat w])
      else None)"

fun uni_search_lit_word :: "unicode \<Rightarrow> string \<Rightarrow> string list \<Rightarrow> string list option" where
  "uni_search_lit_word U lit [] = uni_match_lit_word U lit []"
| "uni_search_lit_word U lit (c # cs) =
     (case uni_match_lit_word U lit (c # cs) of
        Some m \<Rightarrow> Some m
      | None \<Rightarrow> uni_search_lit_word U lit cs)"

text \<open>\<^verbatim>\<open>m.group(n)\<close>.\<close>

definition match_group :: "string list \<Rightarrow> nat \<Rightarrow> py_error + string" where
  "match_group m n = (if n < length m then Inr (m ! n) else Inl IndexError)"

text \<open>\<^verbatim>\<open>re.search(r'\b(\d+) open jobs\b', s)\<close> on the characters of the text.\<close>

definition uni_head_opt :: "string list \<Rightarrow> string option" where
  "uni_head_opt cs = (case cs of [] \<Rightarrow> None | c # _ \<Rightarrow> Some c)"

definition uni_is_word_opt :: "unicode \<Rightarrow> string option \<Rightarrow> bool" where
  "uni_is_word_opt U p = (case p of None \<Rightarrow> False | Some c \<Rightarrow> word_char U c)"

definition uni_word_boundary :: "unicode \<Rightarrow> string option \<Rightarrow> string option \<Rightarrow> bool" where
  "uni_word_boundary U before after = (uni_is_word_opt U before \<noteq> uni_is_word_opt U after)"

definition uni_match_open_jobs :: "unicode \<Rightarrow> string option \<Rightarrow> string list \<Rightarrow> bool" where
  "uni_match_open_jobs U before cs =
     (let ds = takeWhile (digit_char U) cs;
          rest = drop (length ds) cs
      in uni_word_boundary U before (uni_head_opt cs) \<and> ds \<noteq> [] \<and>
         prefix (map (\<lambda>b. [b]) '' open jobs'') rest \<and>
         uni_word_boundary U (Some ''s'') (uni_head_opt (drop 10 rest)))"

fun uni_search_open_jobs_from :: "unicode \<Rightarrow> string option \<Rightarrow> string list \<Rightarrow> bool" where
  "uni_search_open_jobs_from U before [] = uni_match_open_jobs U before []"
| "uni_search_open_jobs_from U before (c # cs) =
     (uni_match_open_jobs U before (c # cs) \<or> uni_search_open_jobs_from U (Some c) cs)"

definition uni_search_open_jobs :: "unicode \<Rightarrow> string list \<Rightarrow> bool" where
  "uni_search_open_jobs U cs = uni_search_open_jobs_from U None cs"

text \<open>
  \<^verbatim>\<open>parse_user_input\<close> on any Python value, with its exceptions. The first statement
  that touches the argument is \<^verbatim>\<open>re.search\<close>, which raises \<^verbatim>\<open>TypeError\<close> when the
  argument is not a string; after that the function can only raise where it asks a match
  object for group 1.
\<close>

definition parse_user_input_unicode ::
  "unicode \<Rightarrow> json \<Rightarrow> py_error + (string \<times> json) list" where
  "parse_user_input_unicode U user_input =
     (case user_input of
        JStr s \<Rightarrow>
          (let parsed_query = default_query;
               match_location = uni_search_lit_word U ''in '' (utf8_chars s);
               match_role = uni_search_lit_word U ''for a '' (utf8_chars s)
           in then_do (case match_location of
                         Some m \<Rightarrow> then_do (match_group m 1) (\<lambda>g.
                                     Inr (AList.update ''location'' (JStr g) parsed_query))
                       | None \<Rightarrow> Inr parsed_query) (\<lambda>parsed_query.
              then_do (case match_role of
                         Some m \<Rightarrow> then_do (match_group m 1) (\<lambda>g.
                                     Inr (AList.update ''search'' (JStr g) parsed_query))
                       | None \<Rightarrow> Inr parsed_query) (\<lambda>parsed_query.
                (let parsed_query =
                       (if str_contains ''remote'' (uni_lower U (utf8_chars s))
                        then AList.update ''search'' (JStr ''remote'') parsed_query
                        else parsed_query);
                     parsed_query =
                       (if uni_search_open_jobs U (utf8_chars s)
                        then AList.update ''page'' (JInt 1) parsed_query
                        else parsed_query)
                 in Inr parsed_query))))
      | _ \<Rightarrow> Inl TypeError)"

text \<open>
  The patterns of the specification on arbitrary text: a part of the text that reads as
  the literal, case ignored, followed by a word; the text containing ``remote'' once its
  case is ignored, that is, in its lower-case form; a part that reads as a number
  followed by `` open jobs''.
\<close>

definition text_contains_match :: "(string list \<Rightarrow> bool) \<Rightarrow> string list \<Rightarrow> bool" where
  "text_contains_match P cs = list_ex P (sublists cs)"

definition uni_is_lit_word :: "unicode \<Rightarrow> string \<Rightarrow> string list \<Rightarrow> bool" where
  "uni_is_lit_word U lit t =
     (literal_matches U lit (take (length lit) t) \<and> drop (length lit) t \<noteq> [] \<and>
      list_all (word_char U) (drop (length lit) t))"

definition mentions_remote :: "unicode \<Rightarrow> string list \<Rightarrow> bool" where
  "mentions_remote U cs = sublist ''remote'' (uni_lower U cs)"

definition uni_is_open_jobs :: "unicode \<Rightarrow> string list \<Rightarrow> bool" where
  "uni_is_open_jobs U t =
     (let ds = takeWhile (digit_char U) t
      in ds \<noteq> [] \<and> drop (length ds) t = map (\<lambda>b. [b]) '' open jobs'')"

text \<open>
  A fragment of the Unicode tables, enough for the examples: the letter e with an acute accent (bytes C3 A9) is a
  letter; a pattern's \<open>i\<close> matches the dotted capital and the dotless small i (C4 B0,
  C4 B1) when case is ignored; the lower case of the dotted capital I is \<open>i\<close> followed by
  a combining dot (CC 87), and the other characters are their own lower case.
\<close>

definition sample_unicode :: unicode where
  "sample_unicode =
     \<lparr>alnum = (\<lambda>c. c = [CHR 0xC3, CHR 0xA9] \<or> c = [CHR 0xC4, CHR 0xB0] \<or> c = [CHR 0xC4, CHR 0xB1]),
      decimal = (\<lambda>c. False),
      ignorecase = (\<lambda>p c. p = CHR ''i'' \<and> (c = [CHR 0xC4, CHR 0xB0] \<or> c = [CHR 0xC4, CHR 0xB1])),
      lowered = (\<lambda>cs i. if cs ! i = [CHR 0xC4, CHR 0xB0] then [CHR ''i'', CHR 0xCC, CHR 0x87]
                          else cs ! i)\<rparr>"

section \<open>The searches of the code find exactly what the specification describes\<close>

lemma str_contains_sublist: "str_contains sub s \<longleftrightarrow> sublist sub s"
  by (induction s) (simp_all add: sublist_Cons_right)

lemma contains_match_iff: "contains_match P s \<longleftrightarrow> (\<exists>t. sublist t s \<and> P t)"
  by (auto simp: contains_match_def list_ex_iff)

lemma lower_length [simp]: "length (lower s) = length s"
  by (simp add: lower_def)

lemma match_lit_word_sound:
  assumes "match_lit_word lit s = Some w"
  shows "prefix (take (length lit) s @ w) s \<and> is_lit_word lit (take (length lit) s @ w)"
proof -
  from assms have lit: "lower (take (length lit) s) = lit"
    and w: "w = takeWhile is_word (drop (length lit) s)" and ne: "w \<noteq> []"
    by (auto simp: match_lit_word_def Let_def split: if_splits)
  from lit have len: "length (take (length lit) s) = length lit"
    by (metis lower_length)
  have "s = take (length lit) s @ w @ dropWhile is_word (drop (length lit) s)"
    by (simp add: w)
  then have p: "prefix (take (length lit) s @ w) s"
    by (metis append.assoc prefixI)
  have "list_all is_word w"
    unfolding w list_all_iff by (auto dest: set_takeWhileD)
  with lit ne len have "is_lit_word lit (take (length lit) s @ w)"
    by (simp add: is_lit_word_def)
  with p show ?thesis by simp
qed

lemma re_search_lit_word_sound:
  "re_search_lit_word lit s = Some w \<Longrightarrow> contains_match (is_lit_word lit) s"
proof (induction s)
  case Nil
  then show ?case by (simp add: match_lit_word_def Let_def split: if_splits)
next
  case (Cons c cs)
  show ?case
  proof (cases "match_lit_word lit (c # cs)")
    case None
    with Cons have "contains_match (is_lit_word lit) cs" by simp
    then show ?thesis
      by (auto simp: contains_match_iff sublist_Cons_right)
  next
    case (Some v)
    from match_lit_word_sound[OF Some] show ?thesis
      unfolding contains_match_iff by (meson prefix_imp_sublist)
  qed
qed

lemma match_lit_word_complete:
  assumes "is_lit_word lit t"
  shows "match_lit_word lit (t @ ss) \<noteq> None"
proof -
  let ?n = "length lit"
  from assms have lit: "lower (take ?n t) = lit" and ne: "drop ?n t \<noteq> []"
    and wd: "list_all is_word (drop ?n t)"
    by (simp_all add: is_lit_word_def)
  from ne have le: "?n \<le> length t" by simp
  from wd have "takeWhile is_word (drop ?n t @ ss) = drop ?n t @ takeWhile is_word ss"
    by (simp add: list_all_iff takeWhile_append2)
  with ne lit le show ?thesis
    by (simp add: match_lit_word_def Let_def)
qed

lemma re_search_lit_word_start:
  "match_lit_word lit s \<noteq> None \<Longrightarrow> re_search_lit_word lit s \<noteq> None"
  by (cases s) auto

lemma re_search_lit_word_later:
  "re_search_lit_word lit s \<noteq> None \<Longrightarrow> re_search_lit_word lit (ps @ s) \<noteq> None"
  by (induction ps) (auto split: option.splits)

lemma re_search_lit_word_complete:
  assumes "contains_match (is_lit_word lit) s"
  shows "re_search_lit_word lit s \<noteq> None"
proof -
  from assms obtain t ps ss where s: "s = ps @ t @ ss" and t: "is_lit_word lit t"
    by (auto simp: contains_match_iff sublist_def)
  from match_lit_word_complete[OF t] have "re_search_lit_word lit (t @ ss) \<noteq> None"
    by (rule re_search_lit_word_start)
  then show ?thesis unfolding s by (rule re_search_lit_word_later)
qed

lemma re_search_lit_word_None:
  "re_search_lit_word lit s = None \<longleftrightarrow> \<not> contains_match (is_lit_word lit) s"
proof
  assume "re_search_lit_word lit s = None"
  with re_search_lit_word_complete show "\<not> contains_match (is_lit_word lit) s"
    by blast
next
  assume "\<not> contains_match (is_lit_word lit) s"
  then show "re_search_lit_word lit s = None"
    by (cases "re_search_lit_word lit s") (auto dest: re_search_lit_word_sound)
qed




lemma page_update_default: "AList.update ''page'' (JInt 1) default_query = default_query"
  by (simp add: default_query_def)

lemma map_of_parse_page:
  "map_of (parse_user_input s) ''page'' = Some (JInt 1)"
  by (simp add: parse_user_input_def Let_def update_conv' default_query_def
        split: option.splits)

lemma map_of_parse_sort_by:
  "map_of (parse_user_input s) ''sort_by'' = Some (JStr ''date'')"
  by (simp add: parse_user_input_def Let_def update_conv' default_query_def
        split: option.splits)

section \<open>The formatting loop\<close>

lemma format_loop_blocks:
  "format_loop R jobs acc = Inr out \<Longrightarrow>
   \<exists>bs. out = acc @ bs \<and> list_all2 (\<lambda>job b. format_job R job = Inr b) jobs bs"
proof (induction jobs arbitrary: acc)
  case Nil
  then show ?case by simp
next
  case (Cons job jobs)
  from Cons.prems obtain b where b: "format_job R job = Inr b"
    and rest: "format_loop R jobs (acc @ [b]) = Inr out"
    by (auto split: sum.splits)
  from Cons.IH[OF rest] obtain bs where "out = (acc @ [b]) @ bs"
    and "list_all2 (\<lambda>job b. format_job R job = Inr b) jobs bs"
    by blast
  with b have "out = acc @ (b # bs) \<and>
      list_all2 (\<lambda>job b. format_job R job = Inr b) (job # jobs) (b # bs)"
    by simp
  then show ?case by blast
qed

lemma well_formed_job_formats:
  assumes "well_formed_job job"
  shows "\<exists>b. format_job R job = Inr b"
proof -
  from assms obtain kvs where job: "job = JDict kvs"
    by (cases job) (simp_all add: well_formed_job_def)
  from assms obtain v1 v2 v3 v4 v5 v6 where
    "map_of kvs ''company_name'' = Some v1" "map_of kvs ''role'' = Some v2"
    "map_of kvs ''location'' = Some v3" "map_of kvs ''remote'' = Some v4"
    "map_of kvs ''date_posted'' = Some v5" "map_of kvs ''url'' = Some v6"
    unfolding job well_formed_job_def by auto
  then show ?thesis
    unfolding job format_job_def then_do_def getitem_def by simp
qed

lemma format_loop_total:
  "list_all well_formed_job jobs \<Longrightarrow> \<exists>out. format_loop R jobs acc = Inr out"
proof (induction jobs arbitrary: acc)
  case Nil
  then show ?case by simp
next
  case (Cons job jobs)
  then obtain b where "format_job R job = Inr b"
    using well_formed_job_formats by fastforce
  with Cons show ?case by simp
qed

lemma well_formed_sample_job: "well_formed_job (sample_job name)"
  by (simp add: well_formed_job_def sample_job_def)

lemma well_formed_sample_response: "well_formed_response sample_response"
  by (simp add: well_formed_response_def sample_response_def well_formed_sample_job)

section \<open>The searches on arbitrary text find exactly what the specification describes\<close>

lemma text_contains_match_iff:
  "text_contains_match P cs \<longleftrightarrow> (\<exists>t. sublist t cs \<and> P t)"
  by (auto simp: text_contains_match_def list_ex_iff)

lemma literal_matches_length: "literal_matches U lit cs \<Longrightarrow> length lit \<le> length cs"
  by (induction U lit cs rule: literal_matches.induct) simp_all

lemma literal_matches_take:
  "literal_matches U lit (take (length lit) cs) = literal_matches U lit cs"
  by (induction U lit cs rule: literal_matches.induct) simp_all

lemma literal_matches_append:
  "literal_matches U lit t \<Longrightarrow> literal_matches U lit (t @ ss)"
  by (induction U lit t rule: literal_matches.induct) simp_all

lemma uni_match_lit_word_sound:
  assumes "uni_match_lit_word U lit cs = Some m"
  shows "\<exists>w. m = [concat (take (length lit) cs @ w), concat w] \<and>
             prefix (take (length lit) cs @ w) cs \<and>
             uni_is_lit_word U lit (take (length lit) cs @ w)"
proof -
  let ?n = "length lit"
  let ?w = "takeWhile (word_char U) (drop ?n cs)"
  from assms have lit: "literal_matches U lit cs" and ne: "?w \<noteq> []"
    and m: "m = [concat (take ?n cs @ ?w), concat ?w]"
    by (auto simp: uni_match_lit_word_def Let_def split: if_splits)
  from lit have len: "length (take ?n cs) = ?n"
    using literal_matches_length by fastforce
  have "cs = take ?n cs @ ?w @ dropWhile (word_char U) (drop ?n cs)"
    by simp
  then have p: "prefix (take ?n cs @ ?w) cs"
    by (metis append.assoc prefixI)
  have "list_all (word_char U) ?w"
    unfolding list_all_iff by (auto dest: set_takeWhileD)
  with lit ne len have "uni_is_lit_word U lit (take ?n cs @ ?w)"
    by (simp add: uni_is_lit_word_def literal_matches_take)
  with p m show ?thesis by blast
qed

lemma uni_search_lit_word_groups:
  "uni_search_lit_word U lit cs = Some m \<Longrightarrow> length m = 2"
proof (induction cs)
  case Nil
  then show ?case by (auto dest: uni_match_lit_word_sound)
next
  case (Cons c cs)
  then show ?case
    by (cases "uni_match_lit_word U lit (c # cs)") (auto dest: uni_match_lit_word_sound)
qed

lemma uni_search_lit_word_sound:
  "uni_search_lit_word U lit cs = Some m \<Longrightarrow> text_contains_match (uni_is_lit_word U lit) cs"
proof (induction cs)
  case Nil
  then show ?case
    by (simp add: uni_match_lit_word_def Let_def split: if_splits)
next
  case (Cons c cs)
  show ?case
  proof (cases "uni_match_lit_word U lit (c # cs)")
    case None
    with Cons have "text_contains_match (uni_is_lit_word U lit) cs" by simp
    then show ?thesis
      by (auto simp: text_contains_match_iff sublist_Cons_right)
  next
    case (Some v)
    from uni_match_lit_word_sound[OF Some] show ?thesis
      unfolding text_contains_match_iff by (meson prefix_imp_sublist)
  qed
qed

lemma uni_match_lit_word_complete:
  assumes "uni_is_lit_word U lit t"
  shows "uni_match_lit_word U lit (t @ ss) \<noteq> None"
proof -
  let ?n = "length lit"
  from assms have lit: "literal_matches U lit (take ?n t)" and ne: "drop ?n t \<noteq> []"
    and wd: "list_all (word_char U) (drop ?n t)"
    by (simp_all add: uni_is_lit_word_def)
  from ne have le: "?n \<le> length t" by simp
  from lit have "literal_matches U lit (t @ ss)"
    by (simp add: literal_matches_take literal_matches_append)
  moreover from wd
  have "takeWhile (word_char U) (drop ?n t @ ss) = drop ?n t @ takeWhile (word_char U) ss"
    by (simp add: list_all_iff takeWhile_append2)
  ultimately show ?thesis
    using ne le by (simp add: uni_match_lit_word_def Let_def)
qed

lemma uni_search_lit_word_start:
  "uni_match_lit_word U lit cs \<noteq> None \<Longrightarrow> uni_search_lit_word U lit cs \<noteq> None"
  by (cases cs) auto

lemma uni_search_lit_word_later:
  "uni_search_lit_word U lit cs \<noteq> None \<Longrightarrow> uni_search_lit_word U lit (ps @ cs) \<noteq> None"
  by (induction ps) (auto split: option.splits)

lemma uni_search_lit_word_complete:
  assumes "text_contains_match (uni_is_lit_word U lit) cs"
  shows "uni_search_lit_word U lit cs \<noteq> None"
proof -
  from assms obtain t ps ss where cs: "cs = ps @ t @ ss" and t: "uni_is_lit_word U lit t"
    by (auto simp: text_contains_match_iff sublist_def)
  from uni_match_lit_word_complete[OF t] have "uni_search_lit_word U lit (t @ ss) \<noteq> None"
    by (rule uni_search_lit_word_start)
  then show ?thesis unfolding cs by (rule uni_search_lit_word_later)
qed

lemma uni_search_lit_word_None:
  "uni_search_lit_word U lit cs = None \<longleftrightarrow> \<not> text_contains_match (uni_is_lit_word U lit) cs"
proof
  assume "uni_search_lit_word U lit cs = None"
  with uni_search_lit_word_complete show "\<not> text_contains_match (uni_is_lit_word U lit) cs"
    by blast
next
  assume "\<not> text_contains_match (uni_is_lit_word U lit) cs"
  then show "uni_search_lit_word U lit cs = None"
    by (cases "uni_search_lit_word U lit cs") (auto dest: uni_search_lit_word_sound)
qed

lemma group_of_found:
  assumes "uni_search_lit_word U lit cs = Some m"
  shows "match_group m 1 = Inr (m ! 1)"
  using uni_search_lit_word_groups[OF assms] by (simp add: match_group_def)

lemma mentions_remote_iff:
  "mentions_remote U cs \<longleftrightarrow> str_contains ''remote'' (uni_lower U cs)"
  by (simp only: mentions_remote_def str_contains_sublist)

lemma uni_open_jobs_needs_literal:
  assumes "text_contains_match (uni_is_open_jobs U) cs"
  shows "sublist (map (\<lambda>b. [b]) '' open jobs'') cs"
proof -
  from assms obtain t where t: "sublist t cs" and "uni_is_open_jobs U t"
    by (auto simp: text_contains_match_iff)
  then obtain n where "drop n t = map (\<lambda>b. [b]) '' open jobs''"
    by (auto simp: uni_is_open_jobs_def Let_def)
  then have "suffix (map (\<lambda>b. [b]) '' open jobs'') t"
    by (metis suffix_drop)
  then have "sublist (map (\<lambda>b. [b]) '' open jobs'') t"
    by (rule suffix_imp_sublist)
  with t show ?thesis
    by (rule sublist_order.order_trans[rotated])
qed

lemma parse_user_input_unicode_total:
  "\<exists>q. parse_user_input_unicode U (JStr s) = Inr q"
proof -
  have 1: "\<exists>q. (case uni_search_lit_word U lit cs of
                  Some m \<Rightarrow> then_do (match_group m 1) (\<lambda>g. Inr (f g))
                | None \<Rightarrow> Inr d) = Inr (q :: (string \<times> json) list)" for lit cs f d
  proof (cases "uni_search_lit_word U lit cs")
    case None
    then show ?thesis by simp
  next
    case (Some m)
    from group_of_found[OF Some] have "then_do (match_group m 1) (\<lambda>g. Inr (f g)) = Inr (f (m ! 1))"
      by (simp only: then_do_def sum.case)
    with Some show ?thesis by simp
  qed
  from 1[where lit = "''in ''" and cs = "utf8_chars s" and d = default_query
      and f = "\<lambda>g. AList.update ''location'' (JStr g) default_query"] obtain q1 where
    "(case uni_search_lit_word U ''in '' (utf8_chars s) of
        Some m \<Rightarrow> then_do (match_group m 1) (\<lambda>g. Inr (AList.update ''location'' (JStr g) default_query))
      | None \<Rightarrow> Inr default_query) = Inr q1"
    by blast
  moreover from 1[where lit = "''for a ''" and cs = "utf8_chars s" and d = q1
      and f = "\<lambda>g. AList.update ''search'' (JStr g) q1"] obtain q2 where
    "(case uni_search_lit_word U ''for a '' (utf8_chars s) of
        Some m \<Rightarrow> then_do (match_group m 1) (\<lambda>g. Inr (AList.update ''search'' (JStr g) q1))
      | None \<Rightarrow> Inr q1) = Inr q2"
    by blast
  ultimately show ?thesis
    by (simp add: parse_user_input_unicode_def Let_def then_do_def)
qed

lemma parse_user_input_unicode_not_str:
  "(\<forall>s. v \<noteq> JStr s) \<Longrightarrow> parse_user_input_unicode U v = Inl TypeError"
  by (cases v) (simp_all add: parse_user_input_unicode_def)

section \<open>On ASCII text the two embeddings of the parser agree\<close>

lemma ascii_byte_single:
  "(of_char b :: nat) < 128 \<Longrightarrow> ascii_byte [b] = Some b"
  by (simp add: ascii_byte_def)

lemma utf8_chars_ascii:
  "is_ascii s \<Longrightarrow> utf8_chars s = map (\<lambda>b. [b]) s"
  by (induction s) (simp_all add: is_ascii_def char_width_def)

lemma is_ascii_drop: "is_ascii s \<Longrightarrow> is_ascii (drop n s)"
  by (auto simp: is_ascii_def list_all_iff dest: in_set_dropD)

lemma literal_matches_ascii:
  "is_ascii s \<Longrightarrow>
   literal_matches U lit (map (\<lambda>b. [b]) s) = (lower (take (length lit) s) = lit)"
proof (induction lit arbitrary: s)
  case Nil
  then show ?case by (simp add: lower_def)
next
  case (Cons p ps)
  show ?case
  proof (cases s)
    case Nil
    then show ?thesis by (simp add: lower_def)
  next
    case (Cons b bs)
    with Cons.prems have b: "(of_char b :: nat) < 128" and bs: "is_ascii bs"
      by (simp_all add: is_ascii_def)
    from Cons.IH[OF bs] b show ?thesis
      by (simp add: Cons lower_def letter_matches_def ascii_byte_single)
  qed
qed

lemma takeWhile_word_ascii:
  "is_ascii s \<Longrightarrow>
   takeWhile (word_char U) (map (\<lambda>b. [b]) s) = map (\<lambda>b. [b]) (takeWhile is_word s)"
  by (induction s) (simp_all add: is_ascii_def word_char_def ascii_byte_single)

lemma takeWhile_digit_ascii:
  "is_ascii s \<Longrightarrow>
   takeWhile (digit_char U) (map (\<lambda>b. [b]) s) = map (\<lambda>b. [b]) (takeWhile is_digit s)"
  by (induction s) (simp_all add: is_ascii_def digit_char_def ascii_byte_single)

lemma concat_singletons: "concat (map (\<lambda>b. [b]) s) = s"
  by (induction s) simp_all

lemma uni_match_lit_word_ascii:
  assumes "is_ascii s"
  shows "map_option (\<lambda>m. m ! 1) (uni_match_lit_word U lit (map (\<lambda>b. [b]) s)) =
         match_lit_word lit s"
proof -
  from assms have "is_ascii (drop (length lit) s)" by (rule is_ascii_drop)
  then have "takeWhile (word_char U) (drop (length lit) (map (\<lambda>b. [b]) s)) =
      map (\<lambda>b. [b]) (takeWhile is_word (drop (length lit) s))"
    by (simp only: drop_map takeWhile_word_ascii)
  then show ?thesis
    by (simp add: uni_match_lit_word_def match_lit_word_def literal_matches_ascii[OF assms]
          Let_def concat_singletons)
qed

lemma uni_search_lit_word_ascii:
  "is_ascii s \<Longrightarrow>
   map_option (\<lambda>m. m ! 1) (uni_search_lit_word U lit (map (\<lambda>b. [b]) s)) =
   re_search_lit_word lit s"
proof (induction s)
  case Nil
  from uni_match_lit_word_ascii[OF Nil, of U lit] show ?case by simp
next
  case (Cons b bs)
  then have bs: "is_ascii bs" by (simp add: is_ascii_def)
  have m: "match_lit_word lit (b # bs) =
      map_option (\<lambda>m. m ! 1) (uni_match_lit_word U lit ([b] # map (\<lambda>b. [b]) bs))"
    using uni_match_lit_word_ascii[OF Cons.prems, of U lit] by simp
  from Cons.IH[OF bs] show ?case
    by (cases "uni_match_lit_word U lit ([b] # map (\<lambda>b. [b]) bs)") (simp_all add: m)
qed

lemma uni_lower_ascii:
  assumes "is_ascii s"
  shows "uni_lower U (map (\<lambda>b. [b]) s) = lower s"
proof -
  have "map (\<lambda>i. case ascii_byte (map (\<lambda>b. [b]) s ! i) of
                     Some b \<Rightarrow> [lower_char b]
                   | None \<Rightarrow> lowered U (map (\<lambda>b. [b]) s) i) [0..<length s] =
        map (\<lambda>b. [b]) (map lower_char s)"
  proof (rule nth_equalityI)
    show "length (map (\<lambda>i. case ascii_byte (map (\<lambda>b. [b]) s ! i) of
                     Some b \<Rightarrow> [lower_char b]
                   | None \<Rightarrow> lowered U (map (\<lambda>b. [b]) s) i) [0..<length s]) =
          length (map (\<lambda>b. [b]) (map lower_char s))"
      by simp
  next
    fix i
    assume "i < length (map (\<lambda>i. case ascii_byte (map (\<lambda>b. [b]) s ! i) of
                     Some b \<Rightarrow> [lower_char b]
                   | None \<Rightarrow> lowered U (map (\<lambda>b. [b]) s) i) [0..<length s])"
    then have i: "i < length s" by simp
    with assms have "(of_char (s ! i) :: nat) < 128"
      by (simp add: is_ascii_def list_all_length)
    with i show "map (\<lambda>i. case ascii_byte (map (\<lambda>b. [b]) s ! i) of
                     Some b \<Rightarrow> [lower_char b]
                   | None \<Rightarrow> lowered U (map (\<lambda>b. [b]) s) i) [0..<length s] ! i =
          map (\<lambda>b. [b]) (map lower_char s) ! i"
      by (simp add: ascii_byte_single)
  qed
  then show ?thesis
    unfolding uni_lower_def lower_def length_map by (simp only: concat_singletons)
qed

lemma uni_head_opt_ascii:
  "uni_head_opt (map (\<lambda>b. [b]) s) = map_option (\<lambda>b. [b]) (head_opt s)"
  by (cases s) (simp_all add: uni_head_opt_def head_opt_def)

lemma uni_is_word_opt_ascii:
  "(case p of None \<Rightarrow> True | Some b \<Rightarrow> (of_char b :: nat) < 128) \<Longrightarrow>
   uni_is_word_opt U (map_option (\<lambda>b. [b]) p) = is_word_opt p"
  by (cases p) (simp_all add: uni_is_word_opt_def is_word_opt_def word_char_def ascii_byte_single)

lemma head_opt_ascii:
  "is_ascii s \<Longrightarrow> (case head_opt s of None \<Rightarrow> True | Some b \<Rightarrow> (of_char b :: nat) < 128)"
  by (cases s) (simp_all add: head_opt_def is_ascii_def)

lemma prefix_singletons:
  "prefix (map (\<lambda>b. [b]) xs) (map (\<lambda>b. [b]) ys) = prefix xs (ys :: string)"
proof (induction xs arbitrary: ys)
  case Nil
  then show ?case by simp
next
  case (Cons a xs)
  then show ?case by (cases ys) simp_all
qed

lemma uni_match_open_jobs_ascii:
  assumes "is_ascii s" and "case before of None \<Rightarrow> True | Some b \<Rightarrow> (of_char b :: nat) < 128"
  shows "uni_match_open_jobs U (map_option (\<lambda>b. [b]) before) (map (\<lambda>b. [b]) s) =
         match_open_jobs before s"
proof -
  let ?ds = "takeWhile is_digit s"
  let ?rest = "drop (length ?ds) s"
  have d: "takeWhile (digit_char U) (map (\<lambda>b. [b]) s) = map (\<lambda>b. [b]) ?ds"
    using assms(1) by (rule takeWhile_digit_ascii)
  have b1: "uni_word_boundary U (map_option (\<lambda>b. [b]) before) (uni_head_opt (map (\<lambda>b. [b]) s)) =
      word_boundary before (head_opt s)"
    using assms head_opt_ascii[OF assms(1)]
    by (simp add: uni_word_boundary_def word_boundary_def uni_head_opt_ascii uni_is_word_opt_ascii)
  have "is_ascii (drop 10 ?rest)"
    using assms(1) by (intro is_ascii_drop)
  from head_opt_ascii[OF this]
  have "uni_word_boundary U (Some ''s'') (uni_head_opt (map (\<lambda>b. [b]) (drop 10 ?rest))) =
      word_boundary (Some CHR ''s'') (head_opt (drop 10 ?rest))"
    using uni_is_word_opt_ascii[of "Some CHR ''s''" U]
    by (simp add: uni_word_boundary_def word_boundary_def uni_head_opt_ascii uni_is_word_opt_ascii)
  then have b2: "uni_word_boundary U (Some ''s'')
        (uni_head_opt (drop 10 (drop (length (map (\<lambda>b. [b]) ?ds)) (map (\<lambda>b. [b]) s)))) =
      word_boundary (Some CHR ''s'') (head_opt (drop 10 ?rest))"
    by (simp only: length_map drop_map)
  have p: "prefix (map (\<lambda>b. [b]) '' open jobs'')
        (drop (length (map (\<lambda>b. [b]) ?ds)) (map (\<lambda>b. [b]) s)) =
      prefix '' open jobs'' ?rest"
    by (simp only: length_map drop_map prefix_singletons)
  have n: "(map (\<lambda>b. [b]) ?ds \<noteq> []) = (?ds \<noteq> [])"
    by simp
  show ?thesis
    unfolding uni_match_open_jobs_def match_open_jobs_def Let_def d
    by (simp only: b1 p b2 n)
qed

lemma uni_search_open_jobs_from_ascii:
  "is_ascii s \<Longrightarrow> (case before of None \<Rightarrow> True | Some b \<Rightarrow> (of_char b :: nat) < 128) \<Longrightarrow>
   uni_search_open_jobs_from U (map_option (\<lambda>b. [b]) before) (map (\<lambda>b. [b]) s) =
   search_open_jobs_from before s"
proof (induction s arbitrary: before)
  case Nil
  from uni_match_open_jobs_ascii[OF Nil] show ?case by simp
next
  case (Cons b bs)
  then have bs: "is_ascii bs" and b: "(of_char b :: nat) < 128"
    by (simp_all add: is_ascii_def)
  from b have "case Some b of None \<Rightarrow> True | Some b \<Rightarrow> (of_char b :: nat) < 128" by simp
  from Cons.IH[OF bs this] uni_match_open_jobs_ascii[OF Cons.prems, of U]
  show ?case by simp
qed

lemma parsers_agree_on_ascii:
  assumes "is_ascii s"
  shows "parse_user_input_unicode U (JStr s) = Inr (parse_user_input s)"
proof -
  have g: "(case uni_search_lit_word U lit (map (\<lambda>b. [b]) s) of
              Some m \<Rightarrow> then_do (match_group m 1) (\<lambda>g. Inr (f g))
            | None \<Rightarrow> Inr d) =
           Inr (case re_search_lit_word lit s of Some g \<Rightarrow> f g | None \<Rightarrow> d)"
    for lit and f :: "string \<Rightarrow> (string \<times> json) list" and d
  proof (cases "uni_search_lit_word U lit (map (\<lambda>b. [b]) s)")
    case None
    with uni_search_lit_word_ascii[OF assms, of U lit] show ?thesis by simp
  next
    case (Some m)
    from group_of_found[OF Some] have "then_do (match_group m 1) (\<lambda>g. Inr (f g)) = Inr (f (m ! 1))"
      by (simp only: then_do_def sum.case)
    moreover have "re_search_lit_word lit s = Some (m ! 1)"
      using Some uni_search_lit_word_ascii[OF assms, of U lit] by simp
    ultimately show ?thesis using Some by simp
  qed
  have o: "uni_search_open_jobs U (map (\<lambda>b. [b]) s) = re_search_open_jobs s"
    using uni_search_open_jobs_from_ascii[OF assms, of None U]
    by (simp add: uni_search_open_jobs_def re_search_open_jobs_def)
  show ?thesis
    unfolding parse_user_input_unicode_def parse_user_input_def
    by (simp only: json.case utf8_chars_ascii[OF assms] Let_def g o uni_lower_ascii[OF assms])
       (simp add: then_do_def)
qed

text \<open>Two texts outside ASCII, with the tables of \<open>sample_unicode\<close>: a word with an
  accented letter after ``in'', and ``in'' written with a dotless i.\<close>

lemma unicode_example_accented_word:
  "parse_user_input_unicode sample_unicode (JStr (''in '' @ [CHR 0xC3, CHR 0xA9])) =
     Inr [(''search'', JStr ''''), (''location'', JStr [CHR 0xC3, CHR 0xA9]),
          (''sort_by'', JStr ''date''), (''page'', JInt 1)]"
  by code_simp

lemma unicode_example_dotless_i:
  "parse_user_input_unicode sample_unicode (JStr ([CHR 0xC4, CHR 0xB1] @ ''n Rome'')) =
     Inr [(''search'', JStr ''''), (''location'', JStr ''Rome''),
          (''sort_by'', JStr ''date''), (''page'', JInt 1)]"
  by code_simp

section \<open>Query parser: claims\<close>

text \<open>
  C7. The parser applied to the text ``Looking for a developer in Austin'' returns exactly
  the parameter set with search ``developer'', location ``Austin'', sort order ``date''
  and page 1.
\<close>

theorem parse_developer_in_austin:
  "parse_user_input ''Looking for a developer in Austin'' =
     [(''search'', JStr ''developer''), (''location'', JStr ''Austin''),
      (''sort_by'', JStr ''date''), (''page'', JInt 1)]"
  by code_simp

theorem parse_developer_in_austin_witness:
  "map_of (parse_user_input ''Looking for a developer in Austin'') ''location'' =
     Some (JStr ''Austin'')"
  using parse_developer_in_austin by simp

text \<open>
  C9. Whatever the text, the parameter set the parser returns has page 1 and sort order
  ``date'', and so satisfies the invariant of the data model (page at least 1, sort order
  ``date'' or ``relevance'').
\<close>

theorem parser_page_and_sort_order:
  "map_of (parse_user_input s) ''page'' = Some (JInt 1) \<and>
   map_of (parse_user_input s) ''sort_by'' = Some (JStr ''date'') \<and>
   valid_parameters (parse_user_input s)"
  by (simp add: valid_parameters_def map_of_parse_page map_of_parse_sort_by)

theorem parser_page_and_sort_order_witness:
  "valid_parameters (parse_user_input ''25 open jobs in Berlin sorted by relevance'')"
  using parser_page_and_sort_order [of "''25 open jobs in Berlin sorted by relevance''"]
  by blast

text \<open>
  C4. Whatever the Unicode tables are, the parser returns a parameter set for every text
  and raises nothing. When the text has no part matching ``in <word>'', none matching
  ``for a <word>'', no ``remote'' once its case is ignored and no part matching
  ``<N> open jobs'', that parameter set is exactly the default one: empty search, no
  location, sort order ``date'', page 1.
\<close>

theorem parser_defaults_on_any_text:
  "(\<exists>q. parse_user_input_unicode U (JStr s) = Inr q) \<and>
   (\<not> text_contains_match (uni_is_lit_word U ''in '') (utf8_chars s) \<and>
    \<not> text_contains_match (uni_is_lit_word U ''for a '') (utf8_chars s) \<and>
    \<not> mentions_remote U (utf8_chars s) \<and>
    \<not> text_contains_match (uni_is_open_jobs U) (utf8_chars s) \<longrightarrow>
    parse_user_input_unicode U (JStr s) =
      Inr [(''search'', JStr ''''), (''location'', JNull),
           (''sort_by'', JStr ''date''), (''page'', JInt 1)])"
proof (intro conjI impI)
  show "\<exists>q. parse_user_input_unicode U (JStr s) = Inr q"
    by (rule parse_user_input_unicode_total)
next
  assume h: "\<not> text_contains_match (uni_is_lit_word U ''in '') (utf8_chars s) \<and>
    \<not> text_contains_match (uni_is_lit_word U ''for a '') (utf8_chars s) \<and>
    \<not> mentions_remote U (utf8_chars s) \<and>
    \<not> text_contains_match (uni_is_open_jobs U) (utf8_chars s)"
  from h have 1: "uni_search_lit_word U ''in '' (utf8_chars s) = None"
    using uni_search_lit_word_None by blast
  from h have 2: "uni_search_lit_word U ''for a '' (utf8_chars s) = None"
    using uni_search_lit_word_None by blast
  from h have 3: "\<not> str_contains ''remote'' (uni_lower U (utf8_chars s))"
    using mentions_remote_iff by blast
  have "parse_user_input_unicode U (JStr s) = Inr default_query"
    by (simp add: parse_user_input_unicode_def Let_def then_do_def 1 2 3 page_update_default)
  then show "parse_user_input_unicode U (JStr s) =
      Inr [(''search'', JStr ''''), (''location'', JNull),
           (''sort_by'', JStr ''date''), (''page'', JInt 1)]"
    by (simp only: default_query_def)
qed

theorem parser_defaults_on_any_text_witness:
  "(\<exists>q. parse_user_input_unicode sample_unicode
           (JStr (''Caf'' @ [CHR 0xC3, CHR 0xA9] @ '' jobs'')) = Inr q) \<and>
   \<not> text_contains_match (uni_is_lit_word sample_unicode ''in '')
       (utf8_chars (''Caf'' @ [CHR 0xC3, CHR 0xA9] @ '' jobs'')) \<and>
   \<not> text_contains_match (uni_is_lit_word sample_unicode ''for a '')
       (utf8_chars (''Caf'' @ [CHR 0xC3, CHR 0xA9] @ '' jobs'')) \<and>
   \<not> mentions_remote sample_unicode (utf8_chars (''Caf'' @ [CHR 0xC3, CHR 0xA9] @ '' jobs'')) \<and>
   \<not> text_contains_match (uni_is_open_jobs sample_unicode)
       (utf8_chars (''Caf'' @ [CHR 0xC3, CHR 0xA9] @ '' jobs'')) \<and>
   parse_user_input_unicode sample_unicode (JStr (''Caf'' @ [CHR 0xC3, CHR 0xA9] @ '' jobs'')) =
     Inr [(''search'', JStr ''''), (''location'', JNull),
          (''sort_by'', JStr ''date''), (''page'', JInt 1)]"
proof -
  let ?s = "''Caf'' @ [CHR 0xC3, CHR 0xA9] @ '' jobs''"
  have "uni_search_lit_word sample_unicode ''in '' (utf8_chars ?s) = None"
    by code_simp
  then have h1: "\<not> text_contains_match (uni_is_lit_word sample_unicode ''in '') (utf8_chars ?s)"
    by (rule iffD1[OF uni_search_lit_word_None])
  have "uni_search_lit_word sample_unicode ''for a '' (utf8_chars ?s) = None"
    by code_simp
  then have h2: "\<not> text_contains_match (uni_is_lit_word sample_unicode ''for a '') (utf8_chars ?s)"
    by (rule iffD1[OF uni_search_lit_word_None])
  have "\<not> str_contains ''remote'' (uni_lower sample_unicode (utf8_chars ?s))"
    by code_simp
  then have h3: "\<not> mentions_remote sample_unicode (utf8_chars ?s)"
    by (rule iffD2[OF arg_cong[OF mentions_remote_iff, of Not]])
  have "\<not> sublist (map (\<lambda>b. [b]) '' open jobs'') (utf8_chars ?s)"
    by code_simp
  then have h4: "\<not> text_contains_match (uni_is_open_jobs sample_unicode) (utf8_chars ?s)"
    using uni_open_jobs_needs_literal by blast
  from parser_defaults_on_any_text [of sample_unicode ?s] h1 h2 h3 h4 show ?thesis
    by blast
qed



section \<open>Result formatter: claims\<close>

text \<open>
  C3. When the formatter returns a text for a response whose results are a non-empty
  list, the text is the join of at most five blocks (five, or all when fewer), and the
  block at each position is the rendering of the result at the same position: the first
  results in the order of the response.
\<close>

theorem formatter_first_five_in_order:
  assumes "result_formatter R (JDict kvs) = Inr text"
    and "map_of kvs ''results'' = Some (JList js)" and "js \<noteq> []"
  shows "\<exists>blocks. text = join [CHR 0x0A, CHR 0x0A] blocks \<and>
           length blocks \<le> 5 \<and> length blocks = min 5 (length js) \<and>
           (\<forall>i<length blocks. format_job R (js ! i) = Inr (blocks ! i))"
proof -
  from assms obtain blocks where loop: "format_loop R (take 5 js) [] = Inr blocks"
    and joined: "text = join [CHR 0x0A, CHR 0x0A] blocks"
    by (auto simp: result_formatter_def then_do_def py_in_def getitem_def first5_def
          split: sum.splits)
  from format_loop_blocks[OF loop]
  have all2: "list_all2 (\<lambda>job b. format_job R job = Inr b) (take 5 js) blocks"
    by simp
  then have len: "length blocks = min 5 (length js)"
    by (auto dest: list_all2_lengthD simp: min.commute)
  have "format_job R (js ! i) = Inr (blocks ! i)" if "i < length blocks" for i
    using all2 that len by (simp add: list_all2_conv_all_nth)
  with joined len show ?thesis by auto
qed

text \<open>
  C8. On a well-formed response the formatter returns a text; it raises nothing. It is a
  function of the response alone and touches no state.
\<close>

theorem formatter_total:
  assumes "well_formed_response r"
  shows "\<exists>text. result_formatter R r = Inr text"
proof -
  from assms obtain kvs where r: "r = JDict kvs"
    by (cases r) (simp_all add: well_formed_response_def)
  show ?thesis
  proof (cases "map_of kvs ''results''")
    case None
    then show ?thesis
      by (simp add: r result_formatter_def then_do_def py_in_def)
  next
    case (Some v)
    with assms obtain js where v: "v = JList js" and wf: "list_all well_formed_job js"
      unfolding r well_formed_response_def by (cases v) simp_all
    from wf have "list_all well_formed_job (take 5 js)"
      by (auto simp: list_all_iff dest: in_set_takeD)
    from format_loop_total[OF this] obtain out where "format_loop R (take 5 js) [] = Inr out"
      by blast
    with Some v show ?thesis
      by (simp add: r result_formatter_def then_do_def py_in_def getitem_def first5_def)
  qed
qed

theorem formatter_total_witness:
  "well_formed_response sample_response \<and>
   (\<exists>text. result_formatter (\<lambda>v. ''None'') sample_response = Inr text)"
  using formatter_total [OF well_formed_sample_response] well_formed_sample_response
  by blast

theorem formatter_first_five_in_order_witness:
  "\<exists>blocks. result_formatter (\<lambda>v. ''None'') sample_response =
               Inr (join [CHR 0x0A, CHR 0x0A] blocks) \<and>
            length blocks = 5 \<and>
            format_job (\<lambda>v. ''None'') (sample_job ''A'') = Inr (blocks ! 0) \<and>
            format_job (\<lambda>v. ''None'') (sample_job ''E'') = Inr (blocks ! 4)"
proof -
  let ?R = "\<lambda>v::json. ''None''"
  let ?kvs = "[(''count'', JInt 7),
      (''results'', JList (map sample_job [''A'', ''B'', ''C'', ''D'', ''E'', ''F'', ''G'']))]"
  let ?js = "map sample_job [''A'', ''B'', ''C'', ''D'', ''E'', ''F'', ''G'']"
  from format_loop_total [of "take 5 ?js" ?R "[]"]
  obtain out where "format_loop ?R (take 5 ?js) [] = Inr out"
    by (auto simp: well_formed_sample_job)
  then have h1: "result_formatter ?R (JDict ?kvs) = Inr (join [CHR 0x0A, CHR 0x0A] out)"
    by (simp add: result_formatter_def then_do_def py_in_def getitem_def first5_def)
  have h2: "map_of ?kvs ''results'' = Some (JList ?js)" by simp
  have h3: "?js \<noteq> []" by simp
  from formatter_first_five_in_order [OF h1 h2 h3]
  obtain blocks where b: "join [CHR 0x0A, CHR 0x0A] out = join [CHR 0x0A, CHR 0x0A] blocks"
    and len: "length blocks = min 5 (length ?js)"
    and nth: "\<forall>i<length blocks. format_job ?R (?js ! i) = Inr (blocks ! i)"
    by blast
  from len have len5: "length blocks = 5" by simp
  from len5 nth[rule_format, of 0] nth[rule_format, of 4]
  have "format_job ?R (?js ! 0) = Inr (blocks ! 0)"
    and "format_job ?R (?js ! 4) = Inr (blocks ! 4)"
    by simp_all
  then have "format_job ?R (sample_job ''A'') = Inr (blocks ! 0)"
    and "format_job ?R (sample_job ''E'') = Inr (blocks ! 4)"
    by simp_all
  with h1 b len5 show ?thesis
    unfolding sample_response_def by auto
qed

text \<open>
  C5. For a response without results, and for one whose results are the empty list, the
  formatter returns one and the same fixed message.
\<close>

theorem formatter_no_jobs:
  assumes "map_of kvs ''results'' = None \<or> map_of kvs ''results'' = Some (JList [])"
  shows "result_formatter R (JDict kvs) = Inr no_jobs_message"
  using assms by (auto simp: result_formatter_def then_do_def py_in_def getitem_def)

theorem formatter_no_jobs_witness:
  "result_formatter (\<lambda>v. ''None'') (JDict [(''count'', JInt 0)]) = Inr no_jobs_message \<and>
   result_formatter (\<lambda>v. ''None'') (JDict [(''count'', JInt 0), (''results'', JList [])]) =
     Inr no_jobs_message"
  using formatter_no_jobs [of "[(''count'', JInt 0)]" "\<lambda>v. ''None''"]
    formatter_no_jobs [of "[(''count'', JInt 0), (''results'', JList [])]" "\<lambda>v. ''None''"]
  by simp

section \<open>Tool adapter: claims\<close>

text \<open>
  C6. Given a string, the tool returns what the formatter makes of the client's answer to
  the parsed string; given a dictionary, what the formatter makes of the client's answer
  to that dictionary, the parser playing no part. What it returns is a text.
\<close>

theorem tool_adapter_modes:
  "search_jobs_tool R srv (JStr s) w =
     format_response R (call_search_jobs srv (JDict (parse_user_input s)) w) \<and>
   search_jobs_tool R srv (JDict m) w =
     format_response R (call_search_jobs srv (JDict m) w)"
  by (simp add: search_jobs_tool_def format_response_def result_formatter_def then_do_def
        parsed_input_of_def split: prod.splits sum.splits)

theorem tool_adapter_modes_witness:
  "search_jobs_tool (\<lambda>v. ''None'') (always_answering sample_response)
     (JStr ''for a developer'') quiet_world =
   format_response (\<lambda>v. ''None'')
     (call_search_jobs (always_answering sample_response)
        (JDict (parse_user_input ''for a developer'')) quiet_world) \<and>
   search_jobs_tool (\<lambda>v. ''None'') (always_answering sample_response)
     (JDict [(''search'', JStr ''developer'')]) quiet_world =
   format_response (\<lambda>v. ''None'')
     (call_search_jobs (always_answering sample_response)
        (JDict [(''search'', JStr ''developer'')]) quiet_world)"
  using tool_adapter_modes [of "\<lambda>v. ''None''" "always_answering sample_response"
      "''for a developer''" quiet_world "[(''search'', JStr ''developer'')]"]
  by blast

text \<open>
  C10. Whatever the input, when the client returns its error sentinel the tool returns
  the no-jobs message, the very text it returns when the client returns an empty list of
  results.
\<close>

theorem sentinel_reads_as_no_jobs:
  "(call_search_jobs srv (parsed_input_of x) w = (Inr error_sentinel, w') \<longrightarrow>
      search_jobs_tool R srv x w = (Inr no_jobs_message, w')) \<and>
   (call_search_jobs srv (parsed_input_of x) w = (Inr (JDict [(''results'', JList [])]), w') \<longrightarrow>
      search_jobs_tool R srv x w = (Inr no_jobs_message, w'))"
  by (simp add: search_jobs_tool_def error_sentinel_def py_in_def getitem_def)

theorem sentinel_reads_as_no_jobs_witness:
  "search_jobs_tool (\<lambda>v. ''None'') always_failing (JStr ''remote jobs'') quiet_world =
     (Inr no_jobs_message,
      \<lparr>requests = replicate 3 (JDict [(''search'', JStr ''remote''), (''location'', JNull),
                                        (''sort_by'', JStr ''date''), (''page'', JInt 1)]),
       sleeps = [2, 2, 2]\<rparr>) \<and>
   search_jobs_tool (\<lambda>v. ''None'') (always_answering (JDict [(''results'', JList [])]))
       (JStr ''remote jobs'') quiet_world =
     (Inr no_jobs_message,
      \<lparr>requests = [JDict [(''search'', JStr ''remote''), (''location'', JNull),
                           (''sort_by'', JStr ''date''), (''page'', JInt 1)]],
       sleeps = []\<rparr>)"
proof -
  have p: "parse_user_input ''remote jobs'' =
      [(''search'', JStr ''remote''), (''location'', JNull),
       (''sort_by'', JStr ''date''), (''page'', JInt 1)]"
    by code_simp
  have a: "call_search_jobs always_failing (parsed_input_of (JStr ''remote jobs'')) quiet_world =
      (Inr error_sentinel,
       \<lparr>requests = replicate 3 (JDict [(''search'', JStr ''remote''), (''location'', JNull),
                                         (''sort_by'', JStr ''date''), (''page'', JInt 1)]),
        sleeps = [2, 2, 2]\<rparr>)"
    by (simp add: parsed_input_of_def p call_search_jobs_def kwarg_def search_jobs_def
          always_failing_def quiet_world_def numeral_3_eq_3 Let_def)
  have b: "call_search_jobs (always_answering (JDict [(''results'', JList [])]))
        (parsed_input_of (JStr ''remote jobs'')) quiet_world =
      (Inr (JDict [(''results'', JList [])]),
       \<lparr>requests = [JDict [(''search'', JStr ''remote''), (''location'', JNull),
                            (''sort_by'', JStr ''date''), (''page'', JInt 1)]],
        sleeps = []\<rparr>)"
    by (simp add: parsed_input_of_def p call_search_jobs_def kwarg_def search_jobs_def
          always_answering_def quiet_world_def numeral_3_eq_3 Let_def)
  from a sentinel_reads_as_no_jobs [of always_failing "JStr ''remote jobs''" quiet_world]
  have 1: "search_jobs_tool (\<lambda>v. ''None'') always_failing (JStr ''remote jobs'') quiet_world =
     (Inr no_jobs_message,
      \<lparr>requests = replicate 3 (JDict [(''search'', JStr ''remote''), (''location'', JNull),
                                        (''sort_by'', JStr ''date''), (''page'', JInt 1)]),
       sleeps = [2, 2, 2]\<rparr>)"
    by blast
  from b sentinel_reads_as_no_jobs
    [of "always_answering (JDict [(''results'', JList [])])" "JStr ''remote jobs''" quiet_world]
  have 2: "search_jobs_tool (\<lambda>v. ''None'') (always_answering (JDict [(''results'', JList [])]))
       (JStr ''remote jobs'') quiet_world =
     (Inr no_jobs_message,
      \<lparr>requests = [JDict [(''search'', JStr ''remote''), (''location'', JNull),
                           (''sort_by'', JStr ''date''), (''page'', JInt 1)]],
       sleeps = []\<rparr>)"
    by blast
  from 1 2 show ?thesis by (rule conjI)
qed

section \<open>Listing client: claims\<close>

text \<open>
  C1. Against an endpoint whose every attempt ends in a \<^verbatim>\<open>RequestException\<close>,
  \<^verbatim>\<open>search_jobs\<close> sends three requests and returns the error sentinel without raising,
  but it sleeps three times, not twice: the sleep sits in the \<^verbatim>\<open>except\<close> block, and so
  is also run after the third failure, when no retry follows.
\<close>

theorem sustained_failure_three_sleeps:
  "search_jobs always_failing search location sort_by page w =
     (Inr error_sentinel,
      w\<lparr>requests := requests w @
           replicate 3 (JDict [(''search'', search), (''location'', location),
                               (''sort_by'', sort_by), (''page'', page)]),
        sleeps := sleeps w @ [2, 2, 2]\<rparr>)"
  by (simp add: search_jobs_def always_failing_def numeral_3_eq_3 Let_def)

theorem sustained_failure_three_sleeps_witness:
  "search_jobs always_failing (JStr '''') JNull (JStr ''date'') (JInt 1) quiet_world =
     (Inr error_sentinel,
      \<lparr>requests = replicate 3 (JDict default_query), sleeps = [2, 2, 2]\<rparr>)"
  using sustained_failure_three_sleeps [of "JStr ''''" JNull "JStr ''date''" "JInt 1" quiet_world]
  by (simp add: quiet_world_def default_query_def)

end
